theory Spec2Isabelle
  imports Complex_Main "HOL-Library.Word"
begin

unbundle bit_operations_syntax

section \<open>Buffers\<close>

text \<open>
  A Node \<open>Buffer\<close> is a list of bytes. The accessors used by \<open>lib-gx.js\<close> are modelled
  with the range checks Node performs: a read or write outside the buffer, or a value
  outside the field's range, raises a \<open>RangeError\<close>. A method call on a field that is
  not set raises a \<open>TypeError\<close>.
\<close>

type_synonym byte = "8 word"
type_synonym buffer = "byte list"

datatype error = RangeError | TypeError

definition ebind :: "error + 'a \<Rightarrow> ('a \<Rightarrow> error + 'b) \<Rightarrow> error + 'b" where
  "ebind m f = (case m of Inl e \<Rightarrow> Inl e | Inr x \<Rightarrow> f x)"

definition alloc :: "nat \<Rightarrow> buffer" where
  "alloc n = replicate n 0"

text \<open>\<open>buf.slice(start, end)\<close> for non-negative indices: both ends are clamped.\<close>

definition slice :: "buffer \<Rightarrow> nat \<Rightarrow> nat \<Rightarrow> buffer" where
  "slice buf start stop = take (stop - start) (drop start buf)"

definition put :: "buffer \<Rightarrow> nat \<Rightarrow> buffer \<Rightarrow> error + buffer" where
  "put bs off buf =
     (if off + length bs \<le> length buf
      then Inr (take off buf @ bs @ drop (off + length bs) buf)
      else Inl RangeError)"

definition writeUInt8 :: "int \<Rightarrow> nat \<Rightarrow> buffer \<Rightarrow> error + buffer" where
  "writeUInt8 v off buf =
     (if 0 \<le> v \<and> v \<le> 255 then put [word_of_int v] off buf else Inl RangeError)"

definition writeUInt16LE :: "int \<Rightarrow> nat \<Rightarrow> buffer \<Rightarrow> error + buffer" where
  "writeUInt16LE v off buf =
     (if 0 \<le> v \<and> v \<le> 65535
      then put [word_of_int v, word_of_int (v div 2 ^ 8)] off buf
      else Inl RangeError)"

definition writeUInt32LE :: "int \<Rightarrow> nat \<Rightarrow> buffer \<Rightarrow> error + buffer" where
  "writeUInt32LE v off buf =
     (if 0 \<le> v \<and> v \<le> 4294967295
      then put [word_of_int v, word_of_int (v div 2 ^ 8),
                word_of_int (v div 2 ^ 16), word_of_int (v div 2 ^ 24)] off buf
      else Inl RangeError)"

definition readUInt8 :: "buffer \<Rightarrow> nat \<Rightarrow> error + nat" where
  "readUInt8 buf off =
     (if off + 1 \<le> length buf then Inr (unat (buf ! off)) else Inl RangeError)"

definition readUInt16LE :: "buffer \<Rightarrow> nat \<Rightarrow> error + nat" where
  "readUInt16LE buf off =
     (if off + 2 \<le> length buf
      then Inr (unat (buf ! off) + unat (buf ! (off + 1)) * 2 ^ 8)
      else Inl RangeError)"

definition readUInt32LE :: "buffer \<Rightarrow> nat \<Rightarrow> error + nat" where
  "readUInt32LE buf off =
     (if off + 4 \<le> length buf
      then Inr (unat (buf ! off) + unat (buf ! (off + 1)) * 2 ^ 8
                + unat (buf ! (off + 2)) * 2 ^ 16 + unat (buf ! (off + 3)) * 2 ^ 24)
      else Inl RangeError)"

text \<open>
  \<open>buf.toString()\<close> and \<open>header.write(str, 0)\<close> on ASCII text: one byte per character.
  \<open>String.prototype.trim\<close> removes the white space of both ends; in the ASCII range
  that is TAB, LF, VT, FF, CR and SPACE. The NUL character is not white space.
\<close>

definition ascii_bytes :: "string \<Rightarrow> buffer" where
  "ascii_bytes s = map (\<lambda>c. of_nat (of_char c)) s"

definition toString :: "buffer \<Rightarrow> string" where
  "toString buf = map (\<lambda>b. char_of (unat b)) buf"

definition is_space :: "char \<Rightarrow> bool" where
  "is_space c = (c \<in> set [CHR 0x09, CHR 0x0A, CHR 0x0B, CHR 0x0C, CHR 0x0D, CHR '' ''])"

definition trim :: "string \<Rightarrow> string" where
  "trim s = rev (dropWhile is_space (rev (dropWhile is_space s)))"

definition write_string :: "string \<Rightarrow> nat \<Rightarrow> buffer \<Rightarrow> buffer" where
  "write_string s off buf =
     (let bs = take (length buf - off) (ascii_bytes s)
      in take off buf @ bs @ drop (off + length bs) buf)"

section \<open>The GX container: \<open>GXReader\<close> and \<open>GXWriter\<close>\<close>

record gx_struct =
  magic :: string
  bmpoff :: nat
  gc1off :: nat
  gc2off :: nat
  prsecs :: nat
  prfila :: nat
  unk01 :: nat
  unk02 :: nat
  unk03 :: nat
  unk04 :: nat
  unk05 :: nat
  unk06 :: nat
  unk07 :: nat
  unk08 :: nat
  unk09 :: nat
  unk10 :: nat
  unk11 :: nat
  index :: nat

text \<open>
  \<open>GXReader\<close> on the bytes of its file. The reader keeps a cursor \<open>pos\<close>; \<open>inc\<close> returns the old cursor and advances it.
  \<open>u8\<close>, \<open>u16\<close> and \<open>u32\<close> read at the old cursor and hand the new one on.
\<close>

definition u8 :: "buffer \<Rightarrow> nat \<Rightarrow> error + (nat \<times> nat)" where
  "u8 buf pos = ebind (readUInt8 buf pos) (\<lambda>v. Inr (v, pos + 1))"

definition u16 :: "buffer \<Rightarrow> nat \<Rightarrow> error + (nat \<times> nat)" where
  "u16 buf pos = ebind (readUInt16LE buf pos) (\<lambda>v. Inr (v, pos + 2))"

definition u32 :: "buffer \<Rightarrow> nat \<Rightarrow> error + (nat \<times> nat)" where
  "u32 buf pos = ebind (readUInt32LE buf pos) (\<lambda>v. Inr (v, pos + 4))"

definition GXReader :: "buffer \<Rightarrow> error + gx_struct" where
  "GXReader buf =
     (let m = trim (toString (slice buf 0 16)) in
      ebind (u32 buf 16) (\<lambda>(a, p).
      ebind (u32 buf p) (\<lambda>(b, p).
      ebind (u32 buf p) (\<lambda>(c, p).
      ebind (u32 buf p) (\<lambda>(d, p).
      ebind (u32 buf p) (\<lambda>(e, p).
      ebind (u32 buf p) (\<lambda>(f, p).
      ebind (u16 buf p) (\<lambda>(g, p).
      ebind (u16 buf p) (\<lambda>(h, p).
      ebind (u16 buf p) (\<lambda>(i, p).
      ebind (u16 buf p) (\<lambda>(j, p).
      ebind (u16 buf p) (\<lambda>(k, p).
      ebind (u16 buf p) (\<lambda>(l, p).
      ebind (u16 buf p) (\<lambda>(m2, p).
      ebind (u16 buf p) (\<lambda>(n, p).
      ebind (u8 buf p) (\<lambda>(q, p).
      ebind (u8 buf p) (\<lambda>(r, p).
      Inr \<lparr> magic = m, bmpoff = a, gc1off = b, gc2off = c, prsecs = d, prfila = e,
            unk01 = f, unk02 = g, unk03 = h, unk04 = i, unk05 = j, unk06 = k,
            unk07 = l, unk08 = m2, unk09 = n, unk10 = q, unk11 = r,
            index = p \<rparr>)))))))))))))))))"

text \<open>
  \<open>extract\<close> writes two files; the model returns their contents: the thumbnail
  \<open>buf.slice(bmpoff, gc1off)\<close> and the toolpath \<open>buf.slice(gc1off, buf.length)\<close>.
\<close>

definition extract_gx :: "buffer \<Rightarrow> gx_struct \<Rightarrow> buffer \<times> buffer" where
  "extract_gx buf s = (slice buf (bmpoff s) (gc1off s), slice buf (gc1off s) (length buf))"

text \<open>
  \<open>time || 100\<close>: an argument that is omitted (\<open>None\<close>) or zero takes the default.
\<close>

definition or_default :: "int option \<Rightarrow> int \<Rightarrow> int" where
  "or_default v d = (case v of None \<Rightarrow> d | Some n \<Rightarrow> if n = 0 then d else n)"

definition gx_magic :: string where
  "gx_magic = ''xgcode 1.0'' @ [CHR 0x0A, CHR 0x00, CHR 0x00, CHR 0x00, CHR 0x00, CHR 0x00]"

text \<open>
  \<open>GXWriter\<close> on buffers (a string argument names a file, whose bytes are read first):
  the thumbnail may be \<open>null\<close> (\<open>None\<close>), which stands for the empty buffer. The result
  is the \<open>output\<close> field: header, thumbnail, toolpath.
\<close>

definition GXWriter :: "buffer \<Rightarrow> buffer option \<Rightarrow> int option \<Rightarrow> int option \<Rightarrow> error + buffer" where
  "GXWriter gcode bmp0 time len =
     (let bmp = (case bmp0 of None \<Rightarrow> alloc 0 | Some b \<Rightarrow> b);
          header = write_string gx_magic 0 (alloc 58) in
      ebind (writeUInt32LE 58 16 header) (\<lambda>header.
      ebind (writeUInt32LE (58 + int (length bmp)) 20 header) (\<lambda>header.
      ebind (writeUInt32LE (58 + int (length bmp)) 24 header) (\<lambda>header.
      ebind (writeUInt32LE (or_default time 100) 28 header) (\<lambda>header.
      ebind (writeUInt32LE (or_default len 100) 32 header) (\<lambda>header.
      ebind (writeUInt32LE 0 36 header) (\<lambda>header.
      ebind (writeUInt16LE 1 40 header) (\<lambda>header.
      ebind (writeUInt16LE 200 42 header) (\<lambda>header.
      ebind (writeUInt16LE 20 44 header) (\<lambda>header.
      ebind (writeUInt16LE 3 46 header) (\<lambda>header.
      ebind (writeUInt16LE 60 48 header) (\<lambda>header.
      ebind (writeUInt16LE 110 50 header) (\<lambda>header.
      ebind (writeUInt16LE 220 52 header) (\<lambda>header.
      ebind (writeUInt16LE 220 54 header) (\<lambda>header.
      ebind (writeUInt8 1 56 header) (\<lambda>header.
      ebind (writeUInt8 1 57 header) (\<lambda>header.
      Inr (header @ bmp @ gcode))))))))))))))))))"


section \<open>Strings\<close>

text \<open>
  The string methods used by the parser and by \<open>print\<close>. \<open>indexOf\<close> gives the first
  position of a substring, or \<open>-1\<close>; \<open>substring\<close> clamps negative indices to zero and
  swaps its ends when they are out of order; \<open>split\<close> on a one-character separator never
  returns the empty list.
\<close>

fun indexOf_from :: "string \<Rightarrow> string \<Rightarrow> nat \<Rightarrow> int" where
  "indexOf_from [] sub i = (if sub = [] then int i else - 1)"
| "indexOf_from (c # cs) sub i =
     (if take (length sub) (c # cs) = sub then int i else indexOf_from cs sub (Suc i))"

definition indexOf :: "string \<Rightarrow> string \<Rightarrow> int" where
  "indexOf s sub = indexOf_from s sub 0"



fun split :: "char \<Rightarrow> string \<Rightarrow> string list" where
  "split sep [] = [[]]"
| "split sep (c # cs) =
     (if c = sep then [] # split sep cs
      else (case split sep cs of [] \<Rightarrow> [[c]] | w # ws \<Rightarrow> (c # w) # ws))"


text \<open>The decimal text of a length, as a template literal prints it.\<close>

fun toDecimal :: "nat \<Rightarrow> string" where
  "toDecimal n =
     (if n < 10 then [''0123456789'' ! n]
      else toDecimal (n div 10) @ [''0123456789'' ! (n mod 10)])"

section \<open>Telemetry: \<open>parseMapValue\<close> and \<open>parseMapLines\<close>\<close>




section \<open>Block framing: \<open>uint32b\<close> and the loop body of \<open>print\<close>\<close>

text \<open>
  \<open>val >> k\<close> converts its left operand to a signed 32-bit integer and shifts with sign
  extension; \<open>& 0xff\<close> keeps the low eight bits of the two's complement.
\<close>

definition to_int32 :: "int \<Rightarrow> int" where
  "to_int32 v = (v + 2 ^ 31) mod 2 ^ 32 - 2 ^ 31"

definition sar :: "int \<Rightarrow> nat \<Rightarrow> int" where
  "sar v k = to_int32 v div 2 ^ k"

definition uint32b :: "int \<Rightarrow> buffer" where
  "uint32b val =
     [word_of_int (sar val 24 mod 256), word_of_int (sar val 16 mod 256),
      word_of_int (sar val 8 mod 256), word_of_int (sar val 0 mod 256)]"

definition preamble :: buffer where
  "preamble = [0x5a, 0x5a, 0xa5, 0xa5]"

text \<open>
  \<open>crc32.unsigned\<close> of the package \<open>buffer-crc32\<close> is a parameter \<open>crc\<close> of the model. The
  block of one loop round: the checksum and the length are taken before the chunk is
  padded.
\<close>

definition frame_block :: "(buffer \<Rightarrow> 32 word) \<Rightarrow> buffer \<Rightarrow> nat \<Rightarrow> buffer" where
  "frame_block crc buffer sl =
     (let chunk = slice buffer (sl * 4096) (sl * 4096 + 4096);
          crc_v = crc chunk;
          len = length chunk;
          chunk = (if len < 4096 then chunk @ alloc (4096 - len) else chunk)
      in preamble @ uint32b (int sl) @ uint32b (int len) @ uint32b (uint crc_v) @ chunk)"

text \<open>
  The checksum the package computes: the reflected CRC-32 with polynomial
  \<open>0xEDB88320\<close>, initial value and final complement \<open>0xFFFFFFFF\<close>.
\<close>

definition crc_step :: "32 word \<Rightarrow> 32 word" where
  "crc_step c = (if bit c 0 then drop_bit 1 c XOR 0xEDB88320 else drop_bit 1 c)"

definition crc_byte :: "32 word \<Rightarrow> byte \<Rightarrow> 32 word" where
  "crc_byte c b = (crc_step ^^ 8) (c XOR ucast b)"

definition crc32 :: "buffer \<Rightarrow> 32 word" where
  "crc32 bs = NOT (foldl crc_byte 0xFFFFFFFF bs)"


section \<open>The connection: \<open>FFControl\<close>\<close>

text \<open>
  JavaScript values that travel as errors: \<open>this.error\<close> starts out \<open>undefined\<close>,
  \<open>conn_error\<close> and \<open>cmd_err\<close> start out \<open>null\<close>, rejections carry strings or the
  error object of a socket event.
\<close>

datatype State = Disconnected | Connecting | Connected

datatype jsval = Undefined | Null | Str string | ErrorObj string

fun truthy :: "jsval \<Rightarrow> bool" where
  "truthy Undefined = False"
| "truthy Null = False"
| "truthy (Str s) = (s \<noteq> [])"
| "truthy (ErrorObj e) = True"

datatype cmd = Ascii string | Binary buffer

text \<open>
  The callbacks held by queue entries: the four closures of \<open>print\<close>, and any other
  function of a caller, known by a number. A success callback receives the collected
  lines, a failure callback an error value.
\<close>

datatype ok_callback = CmdOk | FinalOk | ExtOk nat

datatype fail_callback = CmdFail | FinalFail | ExtFail nat

datatype call = OkCall ok_callback "string list" | FailCall fail_callback jsval

record entry =
  cmd :: cmd
  resolve :: "ok_callback option"
  reject :: "fail_callback option"

datatype 'a promise = Pending | Resolved 'a | Rejected jsval

text \<open>
  The closure of one \<open>print\<close> call: \<open>cmd_out\<close>, \<open>cmd_err\<close>, the variable \<open>filename\<close> as
  the final callback reads it, and the state of the promise that \<open>print\<close> returns.
\<close>

record print_job =
  cmd_out :: "string list"
  cmd_err :: jsval
  filename :: string
  promise :: "(string \<times> string list) promise"

text \<open>
  The fields of the object (\<open>state\<close>, \<open>queue\<close>, \<open>timer\<close>, \<open>next\<close>, \<open>output\<close>, \<open>error\<close>,
  \<open>socket\<close>) and what surrounds it: the number of \<open>setTimeout\<close> callbacks of
  \<open>_sendTimer\<close> that are scheduled and have not run (\<open>pending\<close>), what has been written
  to the socket, the closure variable \<open>conn_error\<close> and the promise of the latest
  \<open>_connect\<close>, the closure of \<open>print\<close>, and the log of callback invocations. \<open>timer\<close> and
  \<open>socket\<close> record whether the field is set. The fields \<open>status\<close>, \<open>lastSend\<close>,
  \<open>lastRecv\<close> and \<open>interval\<close> are never read by the functions modelled here.
\<close>

record ffcontrol =
  state :: State
  queue :: "entry list"
  timer :: bool
  "next" :: "entry option"
  "output" :: "string list"
  error :: jsval
  socket :: bool
  pending :: nat
  written :: "cmd list"
  conn_error :: jsval
  conn_promise :: "unit promise"
  job :: print_job
  calls :: "call list"

definition settle :: "'a promise \<Rightarrow> 'a promise \<Rightarrow> 'a promise" where
  "settle r p = (if p = Pending then r else p)"

definition cmd_ok :: "string list \<Rightarrow> print_job \<Rightarrow> print_job" where
  "cmd_ok lines j = j\<lparr>cmd_out := cmd_out j @ lines\<rparr>"

definition cmd_fail :: "jsval \<Rightarrow> print_job \<Rightarrow> print_job" where
  "cmd_fail e j = (if cmd_err j = Null then j\<lparr>cmd_err := e\<rparr> else j)"

definition final_ok :: "print_job \<Rightarrow> print_job" where
  "final_ok j =
     (if truthy (cmd_err j) then j\<lparr>promise := settle (Rejected (cmd_err j)) (promise j)\<rparr>
      else j\<lparr>promise := settle (Resolved (filename j, cmd_out j)) (promise j)\<rparr>)"

definition final_fail :: "jsval \<Rightarrow> print_job \<Rightarrow> print_job" where
  "final_fail e j =
     j\<lparr>promise := settle (Rejected (if truthy (cmd_err j) then cmd_err j else e)) (promise j)\<rparr>"

definition call_resolve :: "ok_callback \<Rightarrow> string list \<Rightarrow> ffcontrol \<Rightarrow> ffcontrol" where
  "call_resolve cb lines s =
     (let s = s\<lparr>calls := calls s @ [OkCall cb lines]\<rparr>
      in case cb of
           CmdOk \<Rightarrow> s\<lparr>job := cmd_ok lines (job s)\<rparr>
         | FinalOk \<Rightarrow> s\<lparr>job := final_ok (job s)\<rparr>
         | ExtOk n \<Rightarrow> s)"

definition call_reject :: "fail_callback \<Rightarrow> jsval \<Rightarrow> ffcontrol \<Rightarrow> ffcontrol" where
  "call_reject cb e s =
     (let s = s\<lparr>calls := calls s @ [FailCall cb e]\<rparr>
      in case cb of
           CmdFail \<Rightarrow> s\<lparr>job := cmd_fail e (job s)\<rparr>
         | FinalFail \<Rightarrow> s\<lparr>job := final_fail e (job s)\<rparr>
         | ExtFail n \<Rightarrow> s)"

definition init :: "ffcontrol \<Rightarrow> ffcontrol" where
  "init s = s\<lparr>state := Disconnected, queue := [], timer := False, next := None, output := []\<rparr>"

text \<open>The object after \<open>new FFControl()\<close>, with nothing scheduled, written or called.\<close>

definition new_FFControl :: ffcontrol where
  "new_FFControl =
     \<lparr>state = Disconnected, queue = [], timer = False, next = None, output = [],
      error = Undefined, socket = False, pending = 0, written = [], conn_error = Null,
      conn_promise = Pending,
      job = \<lparr>cmd_out = [], cmd_err = Null, filename = [], promise = Pending\<rparr>,
      calls = []\<rparr>"

text \<open>
  \<open>_connect\<close> (here \<open>priv_connect\<close>) returns the state of the promise it hands back,
  as it is when the call returns, and the object. The promise of an accepted attempt
  stays in \<open>conn_promise\<close> for the socket handlers to settle.
\<close>

definition priv_connect :: "ffcontrol \<Rightarrow> unit promise \<times> ffcontrol" where
  "priv_connect s =
     (if state s = Connecting then (Rejected (Str ''already connecting''), s)
      else if state s = Connected then (Rejected (Str ''already connected''), s)
      else (Pending, (init s)\<lparr>conn_error := Null, socket := False, state := Connecting,
                               conn_promise := Pending\<rparr>))"

definition priv_sendTimer :: "ffcontrol \<Rightarrow> ffcontrol" where
  "priv_sendTimer s =
     (if timer s then s
      else if length (queue s) > 0 then s\<lparr>timer := True, pending := pending s + 1\<rparr>
      else s)"

text \<open>
  \<open>_send\<close> (here \<open>priv_send\<close>). Writing through a \<open>socket\<close> field that is not set
  throws a \<open>TypeError\<close>.
\<close>

definition priv_send :: "ffcontrol \<Rightarrow> error + ffcontrol" where
  "priv_send s =
     (let nxt = (case queue s of [] \<Rightarrow> None | n # q \<Rightarrow> Some n);
          s = s\<lparr>queue := tl (queue s)\<rparr>;
          s = (if state s \<noteq> Connected then s\<lparr>error := Str ''disconnected''\<rparr> else s)
      in case nxt of
           None \<Rightarrow> Inr s
         | Some n \<Rightarrow>
             (case (if truthy (error s) then reject n else None) of
                Some rej \<Rightarrow> Inr (call_reject rej (error s) s)
              | None \<Rightarrow>
                  if socket s then Inr (s\<lparr>next := Some n, written := written s @ [cmd n]\<rparr>)
                  else Inl TypeError))"

definition sendCommand :: "string \<Rightarrow> ok_callback option \<Rightarrow> fail_callback option \<Rightarrow> ffcontrol \<Rightarrow> ffcontrol" where
  "sendCommand c res rej s =
     priv_sendTimer
       (s\<lparr>queue := queue s @ [\<lparr>cmd = Ascii (''~'' @ c @ [CHR 0x0D, CHR 0x0A]),
                                resolve = res, reject = rej\<rparr>]\<rparr>)"

definition sendBuffer :: "buffer \<Rightarrow> ok_callback option \<Rightarrow> fail_callback option \<Rightarrow> ffcontrol \<Rightarrow> ffcontrol" where
  "sendBuffer buf res rej s =
     priv_sendTimer (s\<lparr>queue := queue s @ [\<lparr>cmd = Binary buf, resolve = res, reject = rej\<rparr>]\<rparr>)"

subsection \<open>The socket handlers installed by \<open>_connect\<close>\<close>

definition on_connect :: "ffcontrol \<Rightarrow> ffcontrol" where
  "on_connect s =
     s\<lparr>socket := True, written := written s @ [Ascii (''~M601 S1'' @ [CHR 0x0D, CHR 0x0A])]\<rparr>"

definition on_line :: "string \<Rightarrow> ffcontrol \<Rightarrow> ffcontrol" where
  "on_line line s =
     (let okidx = indexOf line ''ok'' in
      if okidx \<ge> 0 then
        let s = (if state s = Connecting
                 then s\<lparr>state := Connected, conn_promise := settle (Resolved ()) (conn_promise s)\<rparr>
                 else if okidx > 0 then s\<lparr>output := output s @ [line]\<rparr>
                 else s);
            s = (case next s of
                   Some n \<Rightarrow>
                     (case resolve n of
                        Some res \<Rightarrow> (call_resolve res (output s) s)\<lparr>next := None\<rparr>
                      | None \<Rightarrow> s)
                 | None \<Rightarrow> s)
        in priv_sendTimer (s\<lparr>output := [], timer := False\<rparr>)
      else s\<lparr>output := output s @ [line]\<rparr>)"

definition on_error :: "jsval \<Rightarrow> ffcontrol \<Rightarrow> ffcontrol" where
  "on_error e s = s\<lparr>conn_error := e\<rparr>"

definition on_close :: "ffcontrol \<Rightarrow> ffcontrol" where
  "on_close s =
     (let s = s\<lparr>state := Disconnected\<rparr>
      in case next s of
           Some n \<Rightarrow>
             (case reject n of
                Some rej \<Rightarrow> (call_reject rej (conn_error s) s)\<lparr>next := None\<rparr>
              | None \<Rightarrow> s)
         | None \<Rightarrow>
             s\<lparr>conn_promise :=
                 settle (Rejected (if truthy (conn_error s) then conn_error s else Str ''close''))
                        (conn_promise s)\<rparr>)"

subsection \<open>\<open>print\<close>\<close>

definition gx_ext :: "string \<Rightarrow> string" where
  "gx_ext name = (if indexOf name ''.gx'' < 0 then name @ ''.gx'' else name)"

definition user_path :: "string \<Rightarrow> string" where
  "user_path name = '' 0:/user/'' @ (if name = [] then ''noname.gx'' else name)"

function print_loop :: "(buffer \<Rightarrow> 32 word) \<Rightarrow> buffer \<Rightarrow> nat \<Rightarrow> nat \<Rightarrow> ffcontrol \<Rightarrow> ffcontrol" where
  "print_loop crc buffer slices sl s =
     (if sl < slices
      then print_loop crc buffer slices (Suc sl)
             (sendBuffer (frame_block crc buffer sl) (Some CmdOk) (Some CmdFail) s)
      else s)"
  by pat_completeness auto
termination
  by (relation "measure (\<lambda>(crc, buffer, slices, sl, s). slices - sl)") auto

text \<open>
  \<open>print\<close> runs inside the executor of the promise it returns: an exception of
  \<open>GXWriter\<close> rejects that promise and nothing is queued.
\<close>

definition print :: "(buffer \<Rightarrow> 32 word) \<Rightarrow> string \<Rightarrow> buffer \<Rightarrow> buffer option \<Rightarrow> int option \<Rightarrow> int option \<Rightarrow> ffcontrol \<Rightarrow> ffcontrol" where
  "print crc name gcode bmp time filament s =
     (let name = gx_ext name;
          j = \<lparr>cmd_out = [], cmd_err = Null, filename = user_path name, promise = Pending\<rparr>
      in case GXWriter gcode bmp time filament of
           Inl e \<Rightarrow>
             s\<lparr>job := j\<lparr>promise := Rejected (ErrorObj (case e of RangeError \<Rightarrow> ''RangeError''
                                                                | TypeError \<Rightarrow> ''TypeError''))\<rparr>\<rparr>
         | Inr buffer \<Rightarrow>
             let s = s\<lparr>job := j\<rparr>;
                 s = sendCommand ''M115'' (Some CmdOk) (Some CmdFail) s;
                 s = sendCommand ''M650'' (Some CmdOk) (Some CmdFail) s;
                 s = sendCommand ''M115'' (Some CmdOk) (Some CmdFail) s;
                 s = sendCommand ''M114'' (Some CmdOk) (Some CmdFail) s;
                 s = sendCommand ''M27'' (Some CmdOk) (Some CmdFail) s;
                 s = sendCommand ''M119'' (Some CmdOk) (Some CmdFail) s;
                 s = sendCommand ''M105'' (Some CmdOk) (Some CmdFail) s;
                 name = user_path name;
                 s = sendCommand (''M28 '' @ toDecimal (length buffer) @ '' '' @ name)
                       (Some CmdOk) (Some CmdFail) s;
                 slices = nat \<lceil>real (length buffer) / 4096\<rceil>;
                 s = print_loop crc buffer slices 0 s;
                 s = sendCommand ''M29'' (Some CmdOk) (Some CmdFail) s;
                 s = sendCommand (''M23 '' @ name) (Some CmdOk) (Some CmdFail) s
             in sendCommand ''M27'' (Some FinalOk) (Some FinalFail) s)"

subsection \<open>Runs\<close>

text \<open>
  What can happen to a connection: calls of its methods, the events of its socket, the
  timer of \<open>_sendTimer\<close> running \<open>_send\<close>, and a caller setting the \<open>error\<close> field. The
  timer runs only when one is scheduled. An exception ends the run.
\<close>

datatype action =
    CallConnect
  | SockConnect
  | SockLine string
  | SockError jsval
  | SockClose
  | TimerFires
  | CallSendCommand string "ok_callback option" "fail_callback option"
  | CallSendBuffer buffer "ok_callback option" "fail_callback option"
  | SetError jsval

fun step :: "action \<Rightarrow> ffcontrol \<Rightarrow> error + ffcontrol" where
  "step CallConnect s = Inr (snd (priv_connect s))"
| "step SockConnect s = Inr (on_connect s)"
| "step (SockLine l) s = Inr (on_line l s)"
| "step (SockError e) s = Inr (on_error e s)"
| "step SockClose s = Inr (on_close s)"
| "step TimerFires s = (if pending s > 0 then priv_send (s\<lparr>pending := pending s - 1\<rparr>) else Inr s)"
| "step (CallSendCommand c res rej) s = Inr (sendCommand c res rej s)"
| "step (CallSendBuffer b res rej) s = Inr (sendBuffer b res rej s)"
| "step (SetError e) s = Inr (s\<lparr>error := e\<rparr>)"

fun run :: "action list \<Rightarrow> ffcontrol \<Rightarrow> error + ffcontrol" where
  "run [] s = Inr s"
| "run (a # as) s = ebind (step a s) (run as)"

section \<open>Descriptions used in the statements\<close>

text \<open>
  The little-endian value of the bytes at an offset, the thumbnail that an optional
  argument stands for, the range of an estimate that fits its header field, and the
  58 header bytes for given offset and estimates.
\<close>

definition le16_at :: "buffer \<Rightarrow> nat \<Rightarrow> nat" where
  "le16_at buf off = unat (buf ! off) + unat (buf ! (off + 1)) * 2 ^ 8"

definition le32_at :: "buffer \<Rightarrow> nat \<Rightarrow> nat" where
  "le32_at buf off = unat (buf ! off) + unat (buf ! (off + 1)) * 2 ^ 8
                + unat (buf ! (off + 2)) * 2 ^ 16 + unat (buf ! (off + 3)) * 2 ^ 24"

definition thumbnail_of :: "buffer option \<Rightarrow> buffer" where
  "thumbnail_of bmp = (case bmp of None \<Rightarrow> [] | Some b \<Rightarrow> b)"

definition valid_estimate :: "int option \<Rightarrow> bool" where
  "valid_estimate v = (case v of None \<Rightarrow> True | Some n \<Rightarrow> 0 \<le> n \<and> n \<le> 4294967295)"

definition u32le :: "int \<Rightarrow> buffer" where
  "u32le v = [word_of_int v, word_of_int (v div 256), word_of_int (v div 65536), word_of_int (v div 16777216)]"

definition gx_header :: "int \<Rightarrow> int \<Rightarrow> int \<Rightarrow> buffer" where
  "gx_header n t f =
     [120, 103, 99, 111, 100, 101, 32, 49, 46, 48, 10, 0, 0, 0, 0, 0]
     @ u32le 58 @ u32le n @ u32le n @ u32le t @ u32le f
     @ [0, 0, 0, 0, 1, 0, 200, 0, 20, 0, 3, 0, 60, 0, 110, 0, 220, 0, 220, 0, 1, 1]"

text \<open>
  The connection after a successful \<open>_connect\<close>: the call, the socket's \<open>connect\<close> event
  and the device's \<open>ok\<close>. The text commands of a queue, in order.
\<close>

definition connected_FFControl :: ffcontrol where
  "connected_FFControl =
     (case run [CallConnect, SockConnect, SockLine ''ok''] new_FFControl of
        Inr s \<Rightarrow> s
      | Inl e \<Rightarrow> new_FFControl)"

fun ascii_cmds :: "entry list \<Rightarrow> string list" where
  "ascii_cmds [] = []"
| "ascii_cmds (e # es) = (case cmd e of Ascii c \<Rightarrow> c # ascii_cmds es | Binary b \<Rightarrow> ascii_cmds es)"

fun binary_cmds :: "entry list \<Rightarrow> buffer list" where
  "binary_cmds [] = []"
| "binary_cmds (e # es) = (case cmd e of Ascii c \<Rightarrow> binary_cmds es | Binary b \<Rightarrow> b # binary_cmds es)"

text \<open>
  The queue entries that one \<open>print\<close> call appends, for the path it computed and the
  buffer of \<open>GXWriter\<close>: seven queries, \<open>M28\<close>, the blocks, \<open>M29\<close>, \<open>M23\<close>, and the final
  \<open>M27\<close> with the callbacks that settle the promise.
\<close>

definition step_entry :: "string \<Rightarrow> entry" where
  "step_entry c =
     \<lparr>cmd = Ascii (''~'' @ c @ [CHR 0x0D, CHR 0x0A]), resolve = Some CmdOk, reject = Some CmdFail\<rparr>"

definition block_entry :: "buffer \<Rightarrow> entry" where
  "block_entry b = \<lparr>cmd = Binary b, resolve = Some CmdOk, reject = Some CmdFail\<rparr>"

definition final_entry :: entry where
  "final_entry =
     \<lparr>cmd = Ascii (''~M27'' @ [CHR 0x0D, CHR 0x0A]), resolve = Some FinalOk, reject = Some FinalFail\<rparr>"

definition print_entries :: "(buffer \<Rightarrow> 32 word) \<Rightarrow> string \<Rightarrow> buffer \<Rightarrow> entry list" where
  "print_entries crc path buffer =
     map step_entry [''M115'', ''M650'', ''M115'', ''M114'', ''M27'', ''M119'', ''M105'',
                     ''M28 '' @ toDecimal (length buffer) @ '' '' @ path]
     @ map (\<lambda>i. block_entry (frame_block crc buffer i)) [0..<(length buffer + 4095) div 4096]
     @ map step_entry [''M29'', ''M23 '' @ path]
     @ [final_entry]"

text \<open>
  The frame as the specification words it: the big-endian encoding of an unsigned 32-bit
  field and its value, the true length of the frame with a given index in a buffer of
  \<open>L\<close> bytes, and the frame itself: preamble, index, true length, checksum of the
  true-length slice, the slice, zero padding.
\<close>

definition be_u32 :: "nat \<Rightarrow> buffer" where
  "be_u32 n = [of_nat (n div 2 ^ 24), of_nat (n div 2 ^ 16), of_nat (n div 2 ^ 8), of_nat n]"

definition be_u32_value :: "buffer \<Rightarrow> nat" where
  "be_u32_value bs = unat (bs ! 0) * 2 ^ 24 + unat (bs ! 1) * 2 ^ 16 + unat (bs ! 2) * 2 ^ 8 + unat (bs ! 3)"

definition true_length :: "nat \<Rightarrow> nat \<Rightarrow> nat" where
  "true_length L i =
     (if i + 1 < (L + 4095) div 4096 then 4096
      else if L mod 4096 = 0 then 4096 else L mod 4096)"

definition spec_frame :: "(buffer \<Rightarrow> 32 word) \<Rightarrow> buffer \<Rightarrow> nat \<Rightarrow> buffer" where
  "spec_frame crc buf i =
     (let len = true_length (length buf) i;
          payload = take len (drop (i * 4096) buf)
      in [0x5A, 0x5A, 0xA5, 0xA5] @ be_u32 i @ be_u32 len @ be_u32 (unat (crc payload))
         @ payload @ replicate (4096 - len) 0)"

definition recorded_length :: "buffer \<Rightarrow> nat" where
  "recorded_length frame = be_u32_value (slice frame 8 12)"






section \<open>Properties of the container\<close>

lemma split4:
  fixes n :: nat
  assumes "n < 4294967296"
  shows "n mod 256 + n div 256 mod 256 * 256 + n div 65536 mod 256 * 65536 + n div 16777216 mod 256 * 16777216 = n"
proof -
  define q1 where "q1 = n div 256"
  define q2 where "q2 = q1 div 256"
  define q3 where "q3 = q2 div 256"
  define r0 where "r0 = n mod 256"
  define r1 where "r1 = q1 mod 256"
  define r2 where "r2 = q2 mod 256"
  have d: "n div 256 = q1" "n div 65536 = q2" "n div 16777216 = q3"
    by (simp_all add: q1_def q2_def q3_def div_mult2_eq[symmetric])
  have "q3 < 256" using assms unfolding d(3)[symmetric] by (simp add: less_mult_imp_div_less)
  then have e: "q3 mod 256 = q3" by simp
  have 1: "n = q1 * 256 + r0" by (simp add: q1_def r0_def)
  have 2: "q1 = q2 * 256 + r1" by (simp add: q2_def r1_def)
  have 3: "q2 = q3 * 256 + r2" by (simp add: q3_def r2_def)
  have main: "r0 + r1 * 256 + r2 * 65536 + q3 * 16777216 = n"
    using 1 2 3 by linarith
  show ?thesis unfolding d e r0_def[symmetric] r1_def[symmetric] r2_def[symmetric] by (rule main)
qed

lemma unat_byte: "unat (word_of_int v :: byte) = nat (v mod 256)"
proof -
  have "unat (word_of_int v :: byte) = nat (uint (word_of_int v :: byte))"
    by (rule unat_eq_nat_uint)
  also have "\<dots> = nat (v mod 256)"
    by (simp only: uint_word_of_int_eq take_bit_eq_mod) simp
  finally show ?thesis .
qed

lemma unat_byte_nat: "unat (word_of_int (int n div k) :: byte) = n div (nat k) mod 256" if "0 \<le> k"
proof -
  have "int n div k = int (n div nat k)" using that by (simp add: zdiv_int)
  then show ?thesis unfolding unat_byte by (simp add: nat_mod_distrib)
qed

lemma decode32:
  assumes "0 \<le> v" "v \<le> 4294967295"
  shows "unat (word_of_int v :: byte) + unat (word_of_int (v div 256) :: byte) * 256
     + unat (word_of_int (v div 65536) :: byte) * 65536 + unat (word_of_int (v div 16777216) :: byte) * 16777216 = nat v"
proof -
  obtain n where n: "v = int n" using assms(1) nonneg_int_cases by blast
  have lt: "n < 4294967296" using assms(2) n by simp
  have z: "unat (word_of_int (int n) :: byte) = n mod 256"
    using unat_byte_nat[of 1 n] by simp
  have "unat (word_of_int (int n) :: byte) + unat (word_of_int (int n div 256) :: byte) * 256
     + unat (word_of_int (int n div 65536) :: byte) * 65536 + unat (word_of_int (int n div 16777216) :: byte) * 16777216 = n"
    unfolding z using split4[OF lt] by (simp only: unat_byte_nat nat_numeral zero_le_numeral)
  then show ?thesis by (simp add: n)
qed

lemma rd32: "off + 4 \<le> length buf \<Longrightarrow> u32 buf off = Inr (le32_at buf off, off + 4)"
  by (simp add: u32_def readUInt32LE_def ebind_def le32_at_def)

lemma rd16: "off + 2 \<le> length buf \<Longrightarrow> u16 buf off = Inr (le16_at buf off, off + 2)"
  by (simp add: u16_def readUInt16LE_def ebind_def le16_at_def)

lemma rd8: "off + 1 \<le> length buf \<Longrightarrow> u8 buf off = Inr (unat (buf ! off), off + 1)"
  by (simp add: u8_def readUInt8_def ebind_def)

lemma ebind_Inr: "ebind (Inr x) f = f x"
  by (simp add: ebind_def)


lemma reader_ok:
  assumes "58 \<le> length buf"
  shows "GXReader buf = Inr \<lparr> magic = trim (toString (take 16 buf)),
     bmpoff = le32_at buf 16, gc1off = le32_at buf 20, gc2off = le32_at buf 24,
     prsecs = le32_at buf 28, prfila = le32_at buf 32, unk01 = le32_at buf 36,
     unk02 = le16_at buf 40, unk03 = le16_at buf 42, unk04 = le16_at buf 44,
     unk05 = le16_at buf 46, unk06 = le16_at buf 48, unk07 = le16_at buf 50,
     unk08 = le16_at buf 52, unk09 = le16_at buf 54, unk10 = unat (buf ! 56),
     unk11 = unat (buf ! 57), index = 58 \<rparr>"
  using assms by (simp add: GXReader_def rd32 rd16 rd8 ebind_Inr slice_def)





lemma alloc58: "alloc 58 = [0,0,0,0,0,0,0,0,0,0,0,0,0,0,0,0,0,0,0,0,0,0,0,0,0,0,0,0,0,0,0,0,0,0,0,0,0,0,0,0,0,0,0,0,0,0,0,0,0,0,0,0,0,0,0,0,0,0]"
  by (simp add: alloc_def numeral_eq_Suc)

lemma header_magic: "write_string gx_magic 0 (alloc 58) = [120,103,99,111,100,101,32,49,46,48,10,0,0,0,0,0,0,0,0,0,0,0,0,0,0,0,0,0,0,0,0,0,0,0,0,0,0,0,0,0,0,0,0,0,0,0,0,0,0,0,0,0,0,0,0,0,0,0]"
  by (simp add: alloc58 write_string_def gx_magic_def ascii_bytes_def)

lemma alloc0: "alloc 0 = []"
  by (simp add: alloc_def)

lemma writer_ok:
  assumes "58 + int (length (thumbnail_of bmp)) \<le> 4294967295"
    and "0 \<le> or_default t 100" and "or_default t 100 \<le> 4294967295"
    and "0 \<le> or_default f 100" and "or_default f 100 \<le> 4294967295"
  shows "GXWriter gcode bmp t f =
     Inr (gx_header (58 + int (length (thumbnail_of bmp))) (or_default t 100) (or_default f 100)
          @ thumbnail_of bmp @ gcode)"
  using assms
  by (cases bmp) (simp_all add: GXWriter_def header_magic ebind_def writeUInt32LE_def
      writeUInt16LE_def writeUInt8_def put_def gx_header_def u32le_def Let_def thumbnail_of_def alloc0)

lemma writer_fail:
  assumes "\<not> (58 + int (length (thumbnail_of bmp)) \<le> 4294967295
              \<and> 0 \<le> or_default t 100 \<and> or_default t 100 \<le> 4294967295
              \<and> 0 \<le> or_default f 100 \<and> or_default f 100 \<le> 4294967295)"
  shows "GXWriter gcode bmp t f = Inl RangeError"
proof -
  define n where "n = 58 + int (length (thumbnail_of bmp))"
  have bmp: "(case bmp of None \<Rightarrow> alloc 0 | Some b \<Rightarrow> b) = thumbnail_of bmp"
    by (simp add: thumbnail_of_def alloc0 split: option.splits)
  have n0: "0 \<le> n" by (simp add: n_def)
  consider (n) "\<not> n \<le> 4294967295"
    | (t) "n \<le> 4294967295" "\<not> (0 \<le> or_default t 100 \<and> or_default t 100 \<le> 4294967295)"
    | (f) "n \<le> 4294967295" "0 \<le> or_default t 100 \<and> or_default t 100 \<le> 4294967295"
          "\<not> (0 \<le> or_default f 100 \<and> or_default f 100 \<le> 4294967295)"
    using assms by (auto simp: n_def)
  then show ?thesis
  proof cases
    case n
    then show ?thesis
      unfolding GXWriter_def Let_def bmp n_def[symmetric]
      by (auto simp: header_magic ebind_def writeUInt32LE_def put_def)
  next
    case t
    then show ?thesis
      unfolding GXWriter_def Let_def bmp n_def[symmetric]
      using n0 by (auto simp: header_magic ebind_def writeUInt32LE_def put_def)
  next
    case f
    then show ?thesis
      unfolding GXWriter_def Let_def bmp n_def[symmetric]
      using n0 by (auto simp: header_magic ebind_def writeUInt32LE_def put_def)
  qed
qed

lemma valid_estimate_iff:
  "valid_estimate v \<longleftrightarrow> 0 \<le> or_default v 100 \<and> or_default v 100 \<le> 4294967295"
  by (cases v) (simp_all add: valid_estimate_def or_default_def)

lemma length_gx_header: "length (gx_header n t f) = 58"
  by (simp add: gx_header_def u32le_def)

lemma header_nth:
  "k < 58 \<Longrightarrow> (gx_header n t f @ rest) ! k = gx_header n t f ! k"
  by (simp add: nth_append length_gx_header)

lemma header_fields:
  "le32_at (gx_header n t f @ rest) 16 = 58"
  "\<lbrakk>0 \<le> n; n \<le> 4294967295\<rbrakk> \<Longrightarrow> le32_at (gx_header n t f @ rest) 20 = nat n"
  "\<lbrakk>0 \<le> n; n \<le> 4294967295\<rbrakk> \<Longrightarrow> le32_at (gx_header n t f @ rest) 24 = nat n"
  "\<lbrakk>0 \<le> t; t \<le> 4294967295\<rbrakk> \<Longrightarrow> le32_at (gx_header n t f @ rest) 28 = nat t"
  "\<lbrakk>0 \<le> f; f \<le> 4294967295\<rbrakk> \<Longrightarrow> le32_at (gx_header n t f @ rest) 32 = nat f"
proof -
  have nth: "(gx_header n t f @ rest) ! 16 = 58" "(gx_header n t f @ rest) ! 17 = 0"
     "(gx_header n t f @ rest) ! 18 = 0" "(gx_header n t f @ rest) ! 19 = 0"
     "(gx_header n t f @ rest) ! 20 = word_of_int n" "(gx_header n t f @ rest) ! 21 = word_of_int (n div 256)"
     "(gx_header n t f @ rest) ! 22 = word_of_int (n div 65536)" "(gx_header n t f @ rest) ! 23 = word_of_int (n div 16777216)"
     "(gx_header n t f @ rest) ! 24 = word_of_int n" "(gx_header n t f @ rest) ! 25 = word_of_int (n div 256)"
     "(gx_header n t f @ rest) ! 26 = word_of_int (n div 65536)" "(gx_header n t f @ rest) ! 27 = word_of_int (n div 16777216)"
     "(gx_header n t f @ rest) ! 28 = word_of_int t" "(gx_header n t f @ rest) ! 29 = word_of_int (t div 256)"
     "(gx_header n t f @ rest) ! 30 = word_of_int (t div 65536)" "(gx_header n t f @ rest) ! 31 = word_of_int (t div 16777216)"
     "(gx_header n t f @ rest) ! 32 = word_of_int f" "(gx_header n t f @ rest) ! 33 = word_of_int (f div 256)"
     "(gx_header n t f @ rest) ! 34 = word_of_int (f div 65536)" "(gx_header n t f @ rest) ! 35 = word_of_int (f div 16777216)"
    by (simp_all add: gx_header_def u32le_def)
  show "le32_at (gx_header n t f @ rest) 16 = 58"
    by (simp add: le32_at_def nth)
  show "le32_at (gx_header n t f @ rest) 20 = nat n" if "0 \<le> n" "n \<le> 4294967295"
    using decode32[OF that] by (simp add: le32_at_def nth)
  show "le32_at (gx_header n t f @ rest) 24 = nat n" if "0 \<le> n" "n \<le> 4294967295"
    using decode32[OF that] by (simp add: le32_at_def nth)
  show "le32_at (gx_header n t f @ rest) 28 = nat t" if "0 \<le> t" "t \<le> 4294967295"
    using decode32[OF that] by (simp add: le32_at_def nth)
  show "le32_at (gx_header n t f @ rest) 32 = nat f" if "0 \<le> f" "f \<le> 4294967295"
    using decode32[OF that] by (simp add: le32_at_def nth)
qed
lemma or_default_valid:
  "valid_estimate v \<Longrightarrow> 0 \<le> or_default v 100 \<and> or_default v 100 \<le> 4294967295"
  by (cases v) (simp_all add: valid_estimate_def or_default_def)

lemma writer_reader:
  fixes gcode :: buffer
  assumes sz: "length (thumbnail_of bmp) < 4294967238"
    and t: "valid_estimate t" and f: "valid_estimate f"
  defines "out \<equiv> gx_header (58 + int (length (thumbnail_of bmp))) (or_default t 100) (or_default f 100)
                    @ thumbnail_of bmp @ gcode"
  shows "GXWriter gcode bmp t f = Inr out"
    and "length out = 58 + length (thumbnail_of bmp) + length gcode"
    and "\<exists>h. GXReader out = Inr h \<and> bmpoff h = 58 \<and> gc1off h = 58 + length (thumbnail_of bmp)
            \<and> gc2off h = 58 + length (thumbnail_of bmp)
            \<and> prsecs h = nat (or_default t 100) \<and> prfila h = nat (or_default f 100)"
proof -
  have n: "0 \<le> 58 + int (length (thumbnail_of bmp))" "58 + int (length (thumbnail_of bmp)) \<le> 4294967295"
    using sz by simp_all
  note tv = or_default_valid[OF t] and fv = or_default_valid[OF f]
  show "GXWriter gcode bmp t f = Inr out"
    unfolding out_def using n tv fv by (intro writer_ok) simp_all
  show len: "length out = 58 + length (thumbnail_of bmp) + length gcode"
    by (simp add: out_def length_gx_header)
  have "58 \<le> length out" using len by simp
  from reader_ok[OF this]
  show "\<exists>h. GXReader out = Inr h \<and> bmpoff h = 58 \<and> gc1off h = 58 + length (thumbnail_of bmp)
            \<and> gc2off h = 58 + length (thumbnail_of bmp)
            \<and> prsecs h = nat (or_default t 100) \<and> prfila h = nat (or_default f 100)"
    using n tv fv by (simp add: out_def header_fields nat_add_distrib)
qed

lemma writer_conditions:
  "(length (thumbnail_of bmp) < 4294967238 \<and> valid_estimate t \<and> valid_estimate f)
     = (58 + int (length (thumbnail_of bmp)) \<le> 4294967295
        \<and> 0 \<le> or_default t 100 \<and> or_default t 100 \<le> 4294967295
        \<and> 0 \<le> or_default f 100 \<and> or_default f 100 \<le> 4294967295)"
  by (auto simp: valid_estimate_iff)

lemma writer_range_error:
  assumes "\<not> (length (thumbnail_of bmp) < 4294967238 \<and> valid_estimate t \<and> valid_estimate f)"
  shows "GXWriter gcode bmp t f = Inl RangeError"
  using assms unfolding writer_conditions by (rule writer_fail)

lemma roundtrip_ok:
  assumes "length (thumbnail_of bmp) < 4294967238"
    and "valid_estimate t" and "valid_estimate f"
  shows "\<exists>out h. GXWriter gcode bmp t f = Inr out \<and> GXReader out = Inr h
           \<and> extract_gx out h = (thumbnail_of bmp, gcode)
           \<and> bmpoff h \<le> gc1off h \<and> gc1off h = gc2off h \<and> gc2off h \<le> length out"
proof -
  define out where "out = gx_header (58 + int (length (thumbnail_of bmp))) (or_default t 100)
                            (or_default f 100) @ thumbnail_of bmp @ gcode"
  have w: "GXWriter gcode bmp t f = Inr out"
    and len: "length out = 58 + length (thumbnail_of bmp) + length gcode"
    using writer_reader(1,2)[OF assms] by (simp_all add: out_def)
  obtain h where h: "GXReader out = Inr h" "bmpoff h = 58"
      "gc1off h = 58 + length (thumbnail_of bmp)" "gc2off h = 58 + length (thumbnail_of bmp)"
    using writer_reader(3)[OF assms, of gcode] by (auto simp: out_def)
  have "extract_gx out h = (thumbnail_of bmp, gcode)"
    by (simp add: extract_gx_def slice_def h len) (simp add: out_def length_gx_header)
  then show ?thesis using w h len by auto
qed

text \<open>
  C1 (amended). For every toolpath, and every thumbnail of fewer than \<open>2^32 - 58\<close> bytes
  (absent or empty included), with the two estimates omitted or within the unsigned 32-bit
  range, \<open>GXWriter\<close> returns a buffer, \<open>GXReader\<close> accepts it, \<open>extract\<close> recovers the
  thumbnail and the toolpath byte for byte, and the header it reads has
  \<open>bmpoff \<le> gc1off = gc2off \<le> length\<close>. On every other input \<open>GXWriter\<close> raises a
  \<open>RangeError\<close>.
\<close>

theorem gx_roundtrip:
  "(length (thumbnail_of bmp) < 4294967238 \<and> valid_estimate t \<and> valid_estimate f \<longrightarrow>
      (\<exists>out h. GXWriter gcode bmp t f = Inr out \<and> GXReader out = Inr h
           \<and> extract_gx out h = (thumbnail_of bmp, gcode)
           \<and> bmpoff h \<le> gc1off h \<and> gc1off h = gc2off h \<and> gc2off h \<le> length out))
   \<and> (\<not> (length (thumbnail_of bmp) < 4294967238 \<and> valid_estimate t \<and> valid_estimate f) \<longrightarrow>
      GXWriter gcode bmp t f = Inl RangeError)"
  using roundtrip_ok[of bmp t f gcode] writer_range_error[of bmp t f gcode] by blast

theorem gx_roundtrip_witness:
  "length (thumbnail_of (Some [9, 9])) < 4294967238 \<and> valid_estimate (Some 0) \<and> valid_estimate None
   \<and> (\<exists>out h. GXWriter [1, 2, 3] (Some [9, 9]) (Some 0) None = Inr out \<and> GXReader out = Inr h
           \<and> extract_gx out h = ([9, 9], [1, 2, 3])
           \<and> bmpoff h \<le> gc1off h \<and> gc1off h = gc2off h \<and> gc2off h \<le> length out)
   \<and> \<not> valid_estimate (Some (- 1))
   \<and> GXWriter [1, 2, 3] (Some [9, 9]) (Some (- 1)) None = Inl RangeError"
proof -
  have a: "length (thumbnail_of (Some [9, 9])) < 4294967238"
    and b: "valid_estimate (Some 0)" and c: "valid_estimate None"
    and d: "\<not> valid_estimate (Some (- 1))"
    by (simp_all add: thumbnail_of_def valid_estimate_def)
  from gx_roundtrip[of "Some [9, 9]" "Some 0" None "[1, 2, 3]"] a b c
  have e: "\<exists>out h. GXWriter [1, 2, 3] (Some [9, 9]) (Some 0) None = Inr out \<and> GXReader out = Inr h
           \<and> extract_gx out h = ([9, 9], [1, 2, 3])
           \<and> bmpoff h \<le> gc1off h \<and> gc1off h = gc2off h \<and> gc2off h \<le> length out"
    by (simp add: thumbnail_of_def)
  from gx_roundtrip[of "Some [9, 9]" "Some (- 1)" None "[1, 2, 3]"] d
  have f: "GXWriter [1, 2, 3] (Some [9, 9]) (Some (- 1)) None = Inl RangeError"
    by blast
  from a b c d e f show ?thesis by blast
qed

text \<open>
  C1 as stated fails: a thumbnail of \<open>2^32 - 58\<close> bytes makes the toolpath offset
  \<open>2^32\<close>, which \<open>writeUInt32LE\<close> refuses.
\<close>

theorem gx_roundtrip_counterexample:
  "GXWriter [1] (Some (replicate 4294967238 0)) None None = Inl RangeError"
  by (simp add: GXWriter_def header_magic ebind_def writeUInt32LE_def put_def)




text \<open>
  C10. Whenever \<open>GXWriter\<close> returns, the header field of the print time holds 100 if the
  argument was 0 (or omitted) and the argument itself otherwise, and likewise the field of
  the filament length; and it returns on every thumbnail and pair of estimates that fit
  their fields.
\<close>

theorem gxwriter_estimate_default:
  "(GXWriter gcode bmp t f = Inr out \<longrightarrow>
      (\<exists>h. GXReader out = Inr h
           \<and> readUInt32LE out 28 = Inr (prsecs h) \<and> readUInt32LE out 32 = Inr (prfila h)
           \<and> prsecs h = (case t of None \<Rightarrow> 100 | Some n \<Rightarrow> if n = 0 then 100 else nat n)
           \<and> prfila h = (case f of None \<Rightarrow> 100 | Some n \<Rightarrow> if n = 0 then 100 else nat n)))
   \<and> (length (thumbnail_of bmp) < 4294967238 \<and> valid_estimate t \<and> valid_estimate f \<longrightarrow>
      (\<exists>out'. GXWriter gcode bmp t f = Inr out'))"
proof (intro conjI impI)
  assume ok: "length (thumbnail_of bmp) < 4294967238 \<and> valid_estimate t \<and> valid_estimate f"
  then show "\<exists>out'. GXWriter gcode bmp t f = Inr out'"
    using writer_reader(1)[of bmp t f gcode] by blast
next
  assume r: "GXWriter gcode bmp t f = Inr out"
  have ok: "length (thumbnail_of bmp) < 4294967238" "valid_estimate t" "valid_estimate f"
    using r writer_range_error[of bmp t f gcode] by auto
  have out: "out = gx_header (58 + int (length (thumbnail_of bmp))) (or_default t 100)
                     (or_default f 100) @ thumbnail_of bmp @ gcode"
    using writer_reader(1)[OF ok, of gcode] r by simp
  have len: "length out = 58 + length (thumbnail_of bmp) + length gcode"
    using writer_reader(2)[OF ok, of gcode] by (simp add: out)
  obtain h where h: "GXReader out = Inr h" "prsecs h = nat (or_default t 100)"
      "prfila h = nat (or_default f 100)"
    using writer_reader(3)[OF ok, of gcode] by (auto simp: out)
  have "58 \<le> length out" using len by simp
  from reader_ok[OF this] h(1)
  have rr: "prsecs h = le32_at out 28" "prfila h = le32_at out 32" by auto
  have rd: "readUInt32LE out 28 = Inr (prsecs h)" "readUInt32LE out 32 = Inr (prfila h)"
    using len by (simp_all add: rr readUInt32LE_def le32_at_def)
  have d: "nat (or_default t 100) = (case t of None \<Rightarrow> 100 | Some n \<Rightarrow> if n = 0 then 100 else nat n)"
       "nat (or_default f 100) = (case f of None \<Rightarrow> 100 | Some n \<Rightarrow> if n = 0 then 100 else nat n)"
    by (simp_all add: or_default_def split: option.splits)
  show "\<exists>h. GXReader out = Inr h
           \<and> readUInt32LE out 28 = Inr (prsecs h) \<and> readUInt32LE out 32 = Inr (prfila h)
           \<and> prsecs h = (case t of None \<Rightarrow> 100 | Some n \<Rightarrow> if n = 0 then 100 else nat n)
           \<and> prfila h = (case f of None \<Rightarrow> 100 | Some n \<Rightarrow> if n = 0 then 100 else nat n)"
    using h rd d by auto
qed

theorem gxwriter_estimate_default_witness:
  "length (thumbnail_of None) < 4294967238 \<and> valid_estimate (Some 0) \<and> valid_estimate (Some 7)
   \<and> (\<exists>out h. GXWriter [1] None (Some 0) (Some 7) = Inr out \<and> GXReader out = Inr h
           \<and> readUInt32LE out 28 = Inr (prsecs h) \<and> readUInt32LE out 32 = Inr (prfila h)
           \<and> prsecs h = 100 \<and> prfila h = 7)"
proof -
  have a: "length (thumbnail_of None) < 4294967238 \<and> valid_estimate (Some 0) \<and> valid_estimate (Some 7)"
    by (simp add: thumbnail_of_def valid_estimate_def)
  with gxwriter_estimate_default[of "[1]" None "Some 0" "Some 7"]
  obtain out where w: "GXWriter [1] None (Some 0) (Some 7) = Inr out"
    by blast
  with gxwriter_estimate_default[of "[1]" None "Some 0" "Some 7" out]
  have "\<exists>h. GXReader out = Inr h
           \<and> readUInt32LE out 28 = Inr (prsecs h) \<and> readUInt32LE out 32 = Inr (prfila h)
           \<and> prsecs h = 100 \<and> prfila h = 7"
    by simp
  with a w show ?thesis by blast
qed

section \<open>Properties of the connection\<close>

lemma ceil4096: "nat \<lceil>real n / 4096\<rceil> = (n + 4095) div 4096"
proof -
  have "\<lceil>real n / 4096\<rceil> = \<lceil>of_int (int n) / (of_int 4096 :: real)\<rceil>" by simp
  also have "\<dots> = - (- int n div 4096)" by (rule ceiling_divide_eq_div)
  also have "\<dots> = (int n + 4095) div 4096" by linarith
  finally show ?thesis by (simp add: nat_div_distrib nat_add_distrib)
qed

declare print_loop.simps [simp del]

declare toDecimal.simps [simp del]

lemma sendBuffer_eq:
  "sendBuffer b res rej s =
     s\<lparr>queue := queue s @ [\<lparr>cmd = Binary b, resolve = res, reject = rej\<rparr>], timer := True,
       pending := (if timer s then pending s else Suc (pending s))\<rparr>"
  by (cases s) (simp add: sendBuffer_def priv_sendTimer_def)

lemma sendCommand_eq:
  "sendCommand c res rej s =
     s\<lparr>queue := queue s @ [\<lparr>cmd = Ascii (''~'' @ c @ [CHR 0x0D, CHR 0x0A]), resolve = res,
                                reject = rej\<rparr>],
       timer := True, pending := (if timer s then pending s else Suc (pending s))\<rparr>"
  by (cases s) (simp add: sendCommand_def priv_sendTimer_def)

lemma print_loop_timer:
  "timer s \<Longrightarrow> print_loop crc buffer slices sl s =
     s\<lparr>queue := queue s @ map (\<lambda>i. block_entry (frame_block crc buffer i)) [sl..<slices]\<rparr>"
proof (induction crc buffer slices sl s rule: print_loop.induct)
  case (1 crc buffer slices sl s)
  show ?case
  proof (cases "sl < slices")
    case True
    have t: "timer (sendBuffer (frame_block crc buffer sl) (Some CmdOk) (Some CmdFail) s)"
      by (simp add: sendBuffer_eq)
    show ?thesis
      using True "1.IH"[OF True t] "1.prems"
      by (subst print_loop.simps) (simp add: sendBuffer_eq upt_conv_Cons block_entry_def)
  next
    case False
    then show ?thesis by (subst print_loop.simps) simp
  qed
qed

lemma print_eq:
  assumes "GXWriter gcode bmp t f = Inr buffer"
  shows "print crc name gcode bmp t f s =
     s\<lparr>job := \<lparr>cmd_out = [], cmd_err = Null, filename = user_path (gx_ext name), promise = Pending\<rparr>,
       queue := queue s @ print_entries crc (user_path (gx_ext name)) buffer,
       timer := True, pending := (if timer s then pending s else Suc (pending s))\<rparr>"
  by (cases s)
     (simp add: print_def assms Let_def sendCommand_eq print_loop_timer ceil4096 print_entries_def
        step_entry_def final_entry_def)

lemma connected_state:
  "connected_FFControl =
     \<lparr>state = Connected, queue = [], timer = False, next = None, output = [],
      error = Undefined, socket = True, pending = 0,
      written = [Ascii (''~M601 S1'' @ [CHR 0x0D, CHR 0x0A])], conn_error = Null,
      conn_promise = Resolved (),
      job = \<lparr>cmd_out = [], cmd_err = Null, filename = [], promise = Pending\<rparr>,
      calls = []\<rparr>"
  by (simp add: connected_FFControl_def new_FFControl_def ebind_def priv_connect_def init_def
      on_connect_def on_line_def indexOf_def settle_def priv_sendTimer_def Let_def)

text \<open>
  C5. A \<open>_connect\<close> call on a connection that is connecting is rejected with
  \<open>already connecting\<close>, one on a connected connection with \<open>already connected\<close>; in
  both cases the promise is rejected at once and the object, with the attempt in progress,
  is left as it was.
\<close>

theorem connect_rejected_when_busy:
  "(state s = Connecting \<longrightarrow>
      priv_connect s = (Rejected (Str ''already connecting''), s) \<and> step CallConnect s = Inr s)
   \<and> (state s = Connected \<longrightarrow>
      priv_connect s = (Rejected (Str ''already connected''), s) \<and> step CallConnect s = Inr s)"
  by (simp add: priv_connect_def)

theorem connect_rejected_when_busy_witness:
  "state (snd (priv_connect new_FFControl)) = Connecting
   \<and> priv_connect (snd (priv_connect new_FFControl))
       = (Rejected (Str ''already connecting''), snd (priv_connect new_FFControl))
   \<and> state connected_FFControl = Connected
   \<and> priv_connect connected_FFControl = (Rejected (Str ''already connected''), connected_FFControl)"
proof -
  have a: "state (snd (priv_connect new_FFControl)) = Connecting"
    by (simp add: priv_connect_def new_FFControl_def init_def)
  have b: "state connected_FFControl = Connected"
    by (simp add: connected_state)
  from connect_rejected_when_busy[of "snd (priv_connect new_FFControl)"]
       connect_rejected_when_busy[of connected_FFControl] a b
  show ?thesis by simp
qed

text \<open>
  C6, at the failing input. Two commands are queued on a connected connection and the
  socket closes before the send timer runs. The timer's \<open>_send\<close> flags the error and
  rejects the first command with it, without a write; it returns with \<open>timer\<close> still set
  and nothing scheduled, so the second command stays in the queue, neither rejected nor
  written, however often the timer is given the chance to run.
\<close>

theorem queue_stranded_after_reject:
  "run [CallSendCommand ''M115'' (Some (ExtOk 1)) (Some (ExtFail 1)),
        CallSendCommand ''M27'' (Some (ExtOk 2)) (Some (ExtFail 2)),
        SockClose, TimerFires, TimerFires, TimerFires] connected_FFControl
   = Inr \<lparr>state = Disconnected,
          queue = [\<lparr>cmd = Ascii (''~M27'' @ [CHR 0x0D, CHR 0x0A]), resolve = Some (ExtOk 2),
                    reject = Some (ExtFail 2)\<rparr>],
          timer = True, next = None, output = [], error = Str ''disconnected'', socket = True,
          pending = 0, written = [Ascii (''~M601 S1'' @ [CHR 0x0D, CHR 0x0A])],
          conn_error = Null, conn_promise = Resolved (),
          job = \<lparr>cmd_out = [], cmd_err = Null, filename = [], promise = Pending\<rparr>,
          calls = [FailCall (ExtFail 1) (Str ''disconnected'')]\<rparr>"
  by (simp add: connected_state ebind_def sendCommand_eq on_close_def priv_send_def settle_def
      call_reject_def Let_def)

lemma print_small:
  "print crc name [1] None None None connected_FFControl =
     connected_FFControl
       \<lparr>job := \<lparr>cmd_out = [], cmd_err = Null, filename = user_path (gx_ext name), promise = Pending\<rparr>,
        queue := print_entries crc (user_path (gx_ext name)) (gx_header 58 100 100 @ [1]),
        timer := True, pending := 1\<rparr>"
proof -
  have w: "GXWriter [1] None None None = Inr (gx_header 58 100 100 @ [1])"
    using writer_ok[of None None None "[1]"] by (simp add: thumbnail_of_def or_default_def)
  show ?thesis
    by (simp add: print_eq[OF w] connected_state)
qed

lemma print_entries_small:
  "print_entries crc path (gx_header 58 100 100 @ [1]) =
     map step_entry [''M115'', ''M650'', ''M115'', ''M114'', ''M27'', ''M119'', ''M105'',
                     ''M28 59 '' @ path]
     @ [block_entry (frame_block crc (gx_header 58 100 100 @ [1]) 0)]
     @ map step_entry [''M29'', ''M23 '' @ path]
     @ [final_entry]"
proof -
  have d: "toDecimal 59 = ''59''"
    by (simp add: toDecimal.simps)
  show ?thesis
    by (simp add: print_entries_def length_gx_header d)
qed

text \<open>
  C4, at the failing input. \<open>print\<close> has queued its twelve steps on a connected
  connection; the first \<open>M115\<close> is written, the socket reports an error and closes. The
  step's failure callback runs and the error is remembered, but nothing schedules \<open>_send\<close>
  again: the eleven other steps stay in the queue, the final \<open>M27\<close> among them, and the
  promise of \<open>print\<close> stays pending.
\<close>

theorem print_stalls_after_failure:
  "map_sum id (\<lambda>s. (calls s, cmd_err (job s), promise (job s), map resolve (queue s), next s,
                     pending s, written s))
     (run [TimerFires, SockError (ErrorObj ''ECONNRESET''), SockClose, TimerFires, TimerFires]
        (print crc32 ''a'' [1] None None None connected_FFControl))
   = Inr ([FailCall CmdFail (ErrorObj ''ECONNRESET'')], ErrorObj ''ECONNRESET'', Pending,
          [Some CmdOk, Some CmdOk, Some CmdOk, Some CmdOk, Some CmdOk, Some CmdOk, Some CmdOk,
           Some CmdOk, Some CmdOk, Some CmdOk, Some FinalOk],
          None, 0,
          [Ascii (''~M601 S1'' @ [CHR 0x0D, CHR 0x0A]), Ascii (''~M115'' @ [CHR 0x0D, CHR 0x0A])])"
  by (simp only: print_small print_entries_small)
     (simp add: connected_state step_entry_def block_entry_def final_entry_def ebind_def
        priv_send_def on_error_def on_close_def call_reject_def cmd_fail_def Let_def)

text \<open>
  C8, at the failing input. A name that holds \<open>.gx\<close> before its end is taken as it is:
  \<open>M28\<close> and \<open>M23\<close> both name \<open>0:/user/a.gx.bak\<close>, which does not end in \<open>.gx\<close>.
\<close>

theorem print_name_with_inner_gx:
  "gx_ext ''a.gx.bak'' = ''a.gx.bak''
   \<and> ascii_cmds (queue (print crc32 ''a.gx.bak'' [1] None None None connected_FFControl)) =
       [''~M115'' @ [CHR 0x0D, CHR 0x0A], ''~M650'' @ [CHR 0x0D, CHR 0x0A],
        ''~M115'' @ [CHR 0x0D, CHR 0x0A], ''~M114'' @ [CHR 0x0D, CHR 0x0A],
        ''~M27'' @ [CHR 0x0D, CHR 0x0A], ''~M119'' @ [CHR 0x0D, CHR 0x0A],
        ''~M105'' @ [CHR 0x0D, CHR 0x0A],
        ''~M28 59  0:/user/a.gx.bak'' @ [CHR 0x0D, CHR 0x0A],
        ''~M29'' @ [CHR 0x0D, CHR 0x0A],
        ''~M23  0:/user/a.gx.bak'' @ [CHR 0x0D, CHR 0x0A],
        ''~M27'' @ [CHR 0x0D, CHR 0x0A]]"
proof -
  have n: "gx_ext ''a.gx.bak'' = ''a.gx.bak''"
    by (simp add: gx_ext_def indexOf_def)
  show ?thesis
    by (simp only: n print_small print_entries_small)
       (simp add: user_path_def step_entry_def block_entry_def final_entry_def)
qed

section \<open>Properties of the framing\<close>

lemma to_int32_cong: "\<exists>m. to_int32 v = v + m * 4294967296"
proof -
  have "(v + 2147483648) mod 4294967296 = v + 2147483648 - ((v + 2147483648) div 4294967296) * 4294967296"
    by (simp add: minus_div_mult_eq_mod)
  then have "to_int32 v = v + (- ((v + 2147483648) div 4294967296)) * 4294967296"
    by (simp add: to_int32_def)
  then show ?thesis by blast
qed

lemma sar_mod:
  assumes "k \<le> 24"
  shows "sar v k mod 256 = v div 2 ^ k mod 256"
proof -
  obtain m where m: "to_int32 v = v + m * 4294967296"
    using to_int32_cong by blast
  have p: "(4294967296 :: int) = 2 ^ k * (2 ^ (24 - k) * 256)"
  proof -
    have "(2 :: int) ^ k * (2 ^ (24 - k) * 256) = 2 ^ (k + (24 - k)) * 256"
      by (simp add: power_add)
    also have "\<dots> = 2 ^ 24 * 256" using assms by simp
    finally show ?thesis by simp
  qed
  have "(v + m * 4294967296) div 2 ^ k = v div 2 ^ k + m * (2 ^ (24 - k) * 256)"
  proof -
    have "v + m * 4294967296 = v + (m * (2 ^ (24 - k) * 256)) * 2 ^ k"
      by (subst p) (simp add: mult.assoc mult.commute)
    then show ?thesis by (simp only: div_mult_self1 zero_less_numeral zero_less_power) simp
  qed
  then have "sar v k mod 256 = (v div 2 ^ k + (m * 2 ^ (24 - k)) * 256) mod 256"
    by (simp add: sar_def m mult.assoc)
  then show ?thesis by (simp only: mod_mult_self1)
qed

lemma byte_of_int_mod: "(word_of_int (a mod 256) :: byte) = word_of_int a"
  by (simp add: word_of_int_eq_iff take_bit_eq_mod)

lemma uint32b_be: "uint32b (int n) = be_u32 n"
proof -
  have b: "(word_of_int (sar (int n) k mod 256) :: byte) = of_nat (n div 2 ^ k)" if "k \<le> 24" for k
  proof -
    have "(word_of_int (sar (int n) k mod 256) :: byte) = word_of_int (int n div 2 ^ k)"
      by (simp only: sar_mod[OF that] byte_of_int_mod)
    also have "int n div 2 ^ k = int (n div 2 ^ k)"
      by (simp add: zdiv_int)
    also have "(word_of_int (int (n div 2 ^ k)) :: byte) = of_nat (n div 2 ^ k)"
      by (rule of_int_of_nat_eq)
    finally show ?thesis .
  qed
  have b0: "(word_of_int (sar (int n) 0 mod 256) :: byte) = of_nat n"
    using b[of 0] by (simp only: power_0 div_by_1 le0)
  have b8: "(word_of_int (sar (int n) 8 mod 256) :: byte) = of_nat (n div 2 ^ 8)"
    by (rule b) simp
  have b16: "(word_of_int (sar (int n) 16 mod 256) :: byte) = of_nat (n div 2 ^ 16)"
    by (rule b) simp
  have b24: "(word_of_int (sar (int n) 24 mod 256) :: byte) = of_nat (n div 2 ^ 24)"
    by (rule b) simp
  show ?thesis
    unfolding uint32b_def be_u32_def by (simp only: b0 b8 b16 b24)
qed

lemma uint32b_word: "uint32b (uint w) = be_u32 (unat w)"
  by (simp only: uint_nat uint32b_be)

lemma div_pow_mod_256:
  fixes v :: nat
  assumes "k \<le> 24"
  shows "v div 2 ^ k mod 256 = (v mod 4294967296) div 2 ^ k mod 256"
proof -
  have "take_bit 8 (drop_bit k v) = drop_bit k (take_bit (8 + k) v)"
    by (rule take_bit_drop_bit)
  also have "take_bit (8 + k) v = take_bit (8 + k) (take_bit 32 v)"
    using assms by (simp only: take_bit_take_bit)
  also have "drop_bit k (take_bit (8 + k) (take_bit 32 v)) = take_bit 8 (drop_bit k (take_bit 32 v))"
    by (rule take_bit_drop_bit[symmetric])
  finally have "take_bit 8 (drop_bit k v) = take_bit 8 (drop_bit k (take_bit 32 v))" .
  then show ?thesis
    by (simp only: take_bit_eq_mod drop_bit_eq_div) simp
qed

lemma be_u32_roundtrip: "be_u32_value (be_u32 v) = v mod 4294967296"
proof -
  define n where "n = v mod 4294967296"
  have lt: "n < 4294967296" by (simp add: n_def)
  have d24: "v div 16777216 mod 256 = n div 16777216 mod 256"
    using div_pow_mod_256[of 24 v] by (simp add: n_def)
  have d16: "v div 65536 mod 256 = n div 65536 mod 256"
    using div_pow_mod_256[of 16 v] by (simp add: n_def)
  have d8: "v div 256 mod 256 = n div 256 mod 256"
    using div_pow_mod_256[of 8 v] by (simp add: n_def)
  have d0: "v mod 256 = n mod 256"
    using div_pow_mod_256[of 0 v] by (simp add: n_def)
  have s: "n mod 256 + n div 256 mod 256 * 256 + n div 65536 mod 256 * 65536
             + n div 16777216 mod 256 * 16777216 = n"
    by (rule split4[OF lt])
  have "be_u32_value (be_u32 v) = v div 16777216 mod 256 * 16777216 + v div 65536 mod 256 * 65536
          + v div 256 mod 256 * 256 + v mod 256"
    by (simp add: be_u32_value_def be_u32_def unat_of_nat)
  also have "\<dots> = n div 16777216 mod 256 * 16777216 + n div 65536 mod 256 * 65536
          + n div 256 mod 256 * 256 + n mod 256"
    by (simp only: d24 d16 d8 d0)
  also have "\<dots> = n" using s by linarith
  finally show ?thesis by (simp only: n_def)
qed

text \<open>The checksum on the customary test vector, the ASCII digits 1 to 9, and on three bytes.\<close>

lemma funpow8: "(f ^^ 8) x = f (f (f (f (f (f (f (f x)))))))"
  by (simp add: eval_nat_numeral funpow_swap1)

lemma crc32_check: "crc32 [0x31, 0x32, 0x33, 0x34, 0x35, 0x36, 0x37, 0x38, 0x39] = 0xCBF43926"
  by (simp add: crc32_def crc_byte_def funpow8 crc_step_def)

lemma crc32_123: "crc32 [1, 2, 3] = 0x55BC801D"
  by (simp add: crc32_def crc_byte_def funpow8 crc_step_def)

lemma chunk_length:
  assumes "i < (L + 4095) div 4096"
  shows "min 4096 (L - i * 4096) = true_length L i"
proof -
  define n where "n = (L + 4095) div 4096"
  define r where "r = L mod 4096"
  define q where "q = L div 4096"
  have L: "L = q * 4096 + r" and r: "r < 4096"
    by (simp_all add: q_def r_def)
  have n: "n = (if r = 0 then q else q + 1)"
  proof -
    have "(q * 4096 + r + 4095) div 4096 = q + (r + 4095) div 4096"
      by (simp add: add.assoc)
    moreover have "(r + 4095) div 4096 = (if r = 0 then 0 else 1)"
      using r by (simp add: div_eq_0_iff) (simp add: le_div_geq)
    ultimately show ?thesis by (simp add: n_def L)
  qed
  have i: "i < n" using assms by (simp add: n_def)
  show ?thesis
  proof (cases "i + 1 < n")
    case True
    then have "(i + 1) * 4096 \<le> q * 4096"
      using n by (simp split: if_splits)
    then have "4096 \<le> L - i * 4096" using L by simp
    then show ?thesis using True by (simp add: true_length_def n_def)
  next
    case False
    then have e: "n = i + 1" using i by simp
    show ?thesis
    proof (cases "r = 0")
      case True
      then have "L - i * 4096 = 4096" using e n L by simp
      then show ?thesis using False True by (simp add: true_length_def n_def[symmetric] r_def[symmetric])
    next
      case nz: False
      then have "L - i * 4096 = r" using e n L by simp
      then show ?thesis using False nz r by (simp add: true_length_def n_def[symmetric] r_def[symmetric])
    qed
  qed
qed

lemma frame_block_spec:
  assumes "i < (length buf + 4095) div 4096"
  shows "frame_block crc buf i = spec_frame crc buf i"
proof -
  define chunk where "chunk = take 4096 (drop (i * 4096) buf)"
  have len: "length chunk = true_length (length buf) i"
    using chunk_length[OF assms] by (simp add: chunk_def)
  have tk: "take (true_length (length buf) i) (drop (i * 4096) buf) = chunk"
    unfolding len[symmetric] chunk_def by (simp add: min_def)
  have le: "length chunk \<le> 4096" by (simp add: chunk_def)
  have pad: "(if length chunk < 4096 then chunk @ alloc (4096 - length chunk) else chunk)
               = chunk @ replicate (4096 - length chunk) 0"
    using le by (simp add: alloc_def)
  have sl: "slice buf (i * 4096) (i * 4096 + 4096) = chunk"
    by (simp add: slice_def chunk_def)
  have "frame_block crc buf i =
          preamble @ uint32b (int i) @ uint32b (int (length chunk)) @ uint32b (uint (crc chunk))
          @ chunk @ replicate (4096 - length chunk) 0"
    unfolding frame_block_def sl Let_def pad ..
  also have "\<dots> = spec_frame crc buf i"
    unfolding spec_frame_def Let_def tk uint32b_be uint32b_word len preamble_def ..
  finally show ?thesis .
qed

lemma print_loop_queue:
  "queue (print_loop crc buffer slices sl s) =
     queue s @ map (\<lambda>i. block_entry (frame_block crc buffer i)) [sl..<slices]"
proof (induction crc buffer slices sl s rule: print_loop.induct)
  case (1 crc buffer slices sl s)
  show ?case
  proof (cases "sl < slices")
    case True
    show ?thesis
      using True "1.IH"[OF True]
      by (subst print_loop.simps) (simp add: sendBuffer_eq upt_conv_Cons block_entry_def)
  next
    case False
    then show ?thesis by (subst print_loop.simps) simp
  qed
qed

lemma binary_cmds_append: "binary_cmds (xs @ ys) = binary_cmds xs @ binary_cmds ys"
  by (induction xs) (simp_all split: cmd.splits)

lemma binary_cmds_blocks: "binary_cmds (map (\<lambda>i. block_entry (f i)) is) = map f is"
  by (induction "is") (simp_all add: block_entry_def)

lemma binary_cmds_steps: "binary_cmds (map step_entry cs) = []"
  by (induction cs) (simp_all add: step_entry_def)

lemma frames_of_loop:
  "binary_cmds (queue (print_loop crc buffer ((length buffer + 4095) div 4096) 0 s)) =
     binary_cmds (queue s) @ map (spec_frame crc buffer) [0..<(length buffer + 4095) div 4096]"
proof -
  have "map (frame_block crc buffer) [0..<(length buffer + 4095) div 4096]
          = map (spec_frame crc buffer) [0..<(length buffer + 4095) div 4096]"
    by (rule map_cong) (simp_all add: frame_block_spec)
  then show ?thesis
    by (simp add: print_loop_queue binary_cmds_append binary_cmds_blocks)
qed

lemma true_slice_length:
  assumes "i < (length buffer + 4095) div 4096"
  shows "length (take (true_length (length buffer) i) (drop (i * 4096) buffer)) = true_length (length buffer) i"
  using chunk_length[OF assms] by (simp add: min_def split: if_splits)

lemma true_length_le: "true_length L i \<le> 4096"
  by (simp add: true_length_def)

lemma length_be_u32: "length (be_u32 v) = 4"
  by (simp add: be_u32_def)

lemma spec_frame_length:
  assumes "i < (length buffer + 4095) div 4096"
  shows "length (spec_frame crc buffer i) = 4112"
  using true_slice_length[OF assms] true_length_le[of "length buffer" i]
  by (simp add: spec_frame_def Let_def length_be_u32)

text \<open>
  C2. For a buffer of \<open>L\<close> bytes the loop of \<open>print\<close> runs \<open>ceil(L/4096)\<close> times and queues,
  in the order of the indices \<open>0..n-1\<close>, exactly the frames of the specification: the
  preamble \<open>5A 5A A5 A5\<close>, then big-endian the index, the true length (4096 for every
  frame but the last, \<open>L mod 4096\<close> or 4096 for the last) and the CRC-32 of the true-length
  slice, then that slice padded with zeros. The slice has the true length, so the payload
  has 4096 bytes and the frame 16 + 4096. The big-endian field holds its value modulo
  \<open>2^32\<close>.
\<close>

theorem print_frames:
  "nat \<lceil>real (length buffer) / 4096\<rceil> = (length buffer + 4095) div 4096
   \<and> binary_cmds (queue (print_loop crc buffer (nat \<lceil>real (length buffer) / 4096\<rceil>) 0 s)) =
       binary_cmds (queue s) @ map (spec_frame crc buffer) [0..<(length buffer + 4095) div 4096]
   \<and> (\<forall>i < (length buffer + 4095) div 4096.
         length (take (true_length (length buffer) i) (drop (i * 4096) buffer))
           = true_length (length buffer) i
         \<and> length (spec_frame crc buffer i) = 16 + 4096)
   \<and> (\<forall>v. be_u32_value (be_u32 v) = v mod 2 ^ 32)"
proof (intro conjI allI impI)
  show "nat \<lceil>real (length buffer) / 4096\<rceil> = (length buffer + 4095) div 4096"
    by (rule ceil4096)
  show "binary_cmds (queue (print_loop crc buffer (nat \<lceil>real (length buffer) / 4096\<rceil>) 0 s)) =
          binary_cmds (queue s) @ map (spec_frame crc buffer) [0..<(length buffer + 4095) div 4096]"
    by (simp only: ceil4096 frames_of_loop)
  show "length (take (true_length (length buffer) i) (drop (i * 4096) buffer))
          = true_length (length buffer) i" if "i < (length buffer + 4095) div 4096" for i
    by (rule true_slice_length[OF that])
  show "length (spec_frame crc buffer i) = 16 + 4096" if "i < (length buffer + 4095) div 4096" for i
    by (simp add: spec_frame_length[OF that])
  show "be_u32_value (be_u32 v) = v mod 2 ^ 32" for v
    by (simp add: be_u32_roundtrip)
qed

theorem print_frames_witness:
  "(0 :: nat) < (length [1, 2, 3 :: byte] + 4095) div 4096
   \<and> binary_cmds (queue (print_loop crc32 [1, 2, 3] (nat \<lceil>real (length [1, 2, 3 :: byte]) / 4096\<rceil>)
                            0 new_FFControl))
       = [spec_frame crc32 [1, 2, 3] 0]
   \<and> length (take (true_length (length [1, 2, 3 :: byte]) 0) (drop (0 * 4096) [1, 2, 3 :: byte]))
       = true_length (length [1, 2, 3 :: byte]) 0
   \<and> true_length (length [1, 2, 3 :: byte]) 0 = 3
   \<and> length (spec_frame crc32 [1, 2, 3] 0) = 16 + 4096
   \<and> spec_frame crc32 [1, 2, 3] 0 =
        [0x5A, 0x5A, 0xA5, 0xA5, 0, 0, 0, 0, 0, 0, 0, 3, 0x55, 0xBC, 0x80, 0x1D, 1, 2, 3]
        @ replicate 4093 0"
proof -
  have p: "(0 :: nat) < (length [1, 2, 3 :: byte] + 4095) div 4096" by simp
  have u: "[0..<(length [1, 2, 3 :: byte] + 4095) div 4096] = [0]" by simp
  have t: "true_length (length [1, 2, 3 :: byte]) 0 = 3" by (simp add: true_length_def)
  have q: "binary_cmds (queue new_FFControl) = []" by (simp add: new_FFControl_def)
  note f = print_frames[of "[1, 2, 3]" crc32 new_FFControl]
  from f have a: "binary_cmds (queue (print_loop crc32 [1, 2, 3]
                      (nat \<lceil>real (length [1, 2, 3 :: byte]) / 4096\<rceil>) 0 new_FFControl))
       = [spec_frame crc32 [1, 2, 3] 0]"
    by (simp only: u q) simp
  from f p have b: "length (take (true_length (length [1, 2, 3 :: byte]) 0) (drop (0 * 4096) [1, 2, 3 :: byte]))
       = true_length (length [1, 2, 3 :: byte]) 0
     \<and> length (spec_frame crc32 [1, 2, 3] 0) = 16 + 4096"
    by blast
  have e: "spec_frame crc32 [1, 2, 3] 0 =
        [0x5A, 0x5A, 0xA5, 0xA5, 0, 0, 0, 0, 0, 0, 0, 3, 0x55, 0xBC, 0x80, 0x1D, 1, 2, 3]
        @ replicate 4093 0"
    by (simp add: spec_frame_def true_length_def be_u32_def crc32_123)
  from p a b t e show ?thesis by blast
qed

lemma print_frames_of:
  assumes "GXWriter gcode bmp t f = Inr out"
  shows "binary_cmds (queue (print crc name gcode bmp t f s)) =
           binary_cmds (queue s) @ map (spec_frame crc out) [0..<(length out + 4095) div 4096]"
proof -
  have "map (frame_block crc out) [0..<(length out + 4095) div 4096]
          = map (spec_frame crc out) [0..<(length out + 4095) div 4096]"
    by (rule map_cong) (simp_all add: frame_block_spec)
  then show ?thesis
    by (simp add: print_eq[OF assms] print_entries_def binary_cmds_append binary_cmds_blocks
        binary_cmds_steps final_entry_def del: map_append list.map)
qed

lemma recorded_true_length:
  "recorded_length (spec_frame crc buf i) = true_length (length buf) i"
proof -
  have "slice (spec_frame crc buf i) 8 12 = be_u32 (true_length (length buf) i)"
    by (simp add: slice_def spec_frame_def Let_def length_be_u32)
  moreover have "true_length (length buf) i mod 4294967296 = true_length (length buf) i"
    using true_length_le[of "length buf" i] by simp
  ultimately show ?thesis
    by (simp only: recorded_length_def be_u32_roundtrip)
qed

lemma scenario_lengths:
  assumes "length gcode = 5000" and "valid_estimate t" and "valid_estimate f"
  shows "\<exists>out. GXWriter gcode None t f = Inr out \<and> length out = 58 + 5000
           \<and> map recorded_length (binary_cmds (queue (print crc name gcode None t f s)))
               = map recorded_length (binary_cmds (queue s)) @ [4096, 962]"
proof -
  define out where "out = gx_header (58 + int (length (thumbnail_of None))) (or_default t 100)
                            (or_default f 100) @ thumbnail_of None @ gcode"
  have sz: "length (thumbnail_of None) < 4294967238"
    by (simp add: thumbnail_of_def)
  have w: "GXWriter gcode None t f = Inr out"
    and len: "length out = 58 + length (thumbnail_of None) + length gcode"
    using writer_reader(1,2)[OF sz assms(2,3)] by (simp_all add: out_def)
  have l: "length out = 5058"
    using len assms(1) by (simp add: thumbnail_of_def)
  have n: "[0..<(length out + 4095) div 4096] = [0, 1]"
    by (simp add: l upt_conv_Cons)
  have "map recorded_length (map (spec_frame crc out) [0, 1]) = [4096, 962]"
    by (simp add: recorded_true_length l true_length_def)
  then have "map recorded_length (binary_cmds (queue (print crc name gcode None t f s)))
               = map recorded_length (binary_cmds (queue s)) @ [4096, 962]"
    by (simp only: print_frames_of[OF w] n map_append)
  then show ?thesis using w l by simp
qed

text \<open>
  C7 (amended). For a toolpath of 5000 bytes and no thumbnail, \<open>GXWriter\<close> returns
  \<open>58 + 5000\<close> bytes and \<open>print\<close> queues exactly two frames for them, whose recorded
  lengths are 4096 and 962.
\<close>

theorem scenario_b:
  assumes "length gcode = 5000" and "valid_estimate t" and "valid_estimate f"
  shows "\<exists>out. GXWriter gcode None t f = Inr out \<and> length out = 58 + 5000
           \<and> map recorded_length (binary_cmds (queue (print crc name gcode None t f s)))
               = map recorded_length (binary_cmds (queue s)) @ [4096, 962]"
  using assms by (rule scenario_lengths)

theorem scenario_b_witness:
  "length (replicate 5000 (0 :: byte)) = 5000 \<and> valid_estimate None
   \<and> (\<exists>out. GXWriter (replicate 5000 0) None None None = Inr out \<and> length out = 58 + 5000
           \<and> map recorded_length
                 (binary_cmds (queue (print crc32 ''a'' (replicate 5000 0) None None None
                                        connected_FFControl)))
               = [4096, 962])"
proof -
  have a: "length (replicate 5000 (0 :: byte)) = 5000" by simp
  have b: "valid_estimate None" by (simp add: valid_estimate_def)
  have c: "binary_cmds (queue connected_FFControl) = []" by (simp add: connected_state)
  from scenario_b[OF a b b, of crc32 "''a''" connected_FFControl] a b
  show ?thesis by (simp add: c)
qed

text \<open>
  C7 as stated fails: the second frame of the 5058 bytes records 962 bytes, not 916.
\<close>

theorem scenario_b_counterexample:
  "map recorded_length
     (binary_cmds (queue (print crc32 ''a'' (replicate 5000 0) None None None connected_FFControl)))
   = [4096, 962]
   \<and> [4096, 962] \<noteq> [4096, 916 :: nat]"
proof -
  have a: "length (replicate 5000 (0 :: byte)) = 5000" by simp
  have b: "valid_estimate None" by (simp add: valid_estimate_def)
  have c: "binary_cmds (queue connected_FFControl) = []" by (simp add: connected_state)
  from scenario_lengths[OF a b b, of crc32 "''a''" connected_FFControl]
  obtain out :: buffer where "map recorded_length
     (binary_cmds (queue (print crc32 ''a'' (replicate 5000 0) None None None connected_FFControl)))
     = map recorded_length (binary_cmds (queue connected_FFControl)) @ [4096, 962]"
    by blast
  then show ?thesis by (simp add: c)
qed

section \<open>Properties of the telemetry parser\<close>

















end
